theory Spec2Isabelle
  imports Complex_Main "HOL-Library.AList" "HOL-Library.Sublist"
begin

section \<open>Embedding of tools/signpost\_summary.py\<close>

text \<open>
  The script reads an XML export of signpost events, pairs begin and end rows by
  (thread, signpost identifier) and prints duration statistics per interval name.
  Every function of the script is translated below. Names follow the source; a leading
  underscore is dropped (\<open>_pct\<close> is \<open>pct\<close>, \<open>_resolve_fmt\<close> is \<open>resolve_fmt\<close>), and the fragments
  of \<open>main\<close> are named after what they do, with their line numbers.
\<close>

subsection \<open>Python strings\<close>

text \<open>
  A Python \<open>str\<close> is modelled as a list of code points below 256. On that range
  \<open>str.isspace\<close> holds for exactly twelve code points, \<open>str.lower\<close> works character
  by character, and the only decimal digits are \<open>0\<close> to \<open>9\<close>.
\<close>

definition py_isspace :: "char \<Rightarrow> bool" where
  "py_isspace c = (of_char c \<in> {9, 10, 11, 12, 13, 28, 29, 30, 31, 32, 133, 160 :: nat})"

definition strip :: "string \<Rightarrow> string" where
  "strip s = rev (dropWhile py_isspace (rev (dropWhile py_isspace s)))"

definition lower_char :: "char \<Rightarrow> char" where
  "lower_char c =
     (let n = (of_char c :: nat)
      in if (65 \<le> n \<and> n \<le> 90) \<or> (192 \<le> n \<and> n \<le> 222 \<and> n \<noteq> 215)
         then char_of (n + 32) else c)"

definition lower :: "string \<Rightarrow> string" where
  "lower s = map lower_char s"

text \<open>\<open>needle in hay\<close> on strings is \<^const>\<open>sublist\<close>: a contiguous occurrence.\<close>

definition is_digit :: "char \<Rightarrow> bool" where
  "is_digit c = (48 \<le> (of_char c :: nat) \<and> (of_char c :: nat) \<le> 57)"

definition digit_of :: "char \<Rightarrow> int" where
  "digit_of c = int (of_char c) - 48"

text \<open>
  \<open>int(t)\<close> on a string: an optional sign, then decimal digits, where single
  underscores may separate digits. \<open>None\<close> is the \<open>ValueError\<close> that the caller
  catches. The interpreter's configurable limit on the number of digits is not modelled.
\<close>

fun py_digits :: "int \<Rightarrow> string \<Rightarrow> int option" where
  "py_digits acc [] = Some acc"
| "py_digits acc (c # cs) =
     (if is_digit c then py_digits (10 * acc + digit_of c) cs
      else if c = CHR ''_'' then
        (case cs of
           [] \<Rightarrow> None
         | d # ds \<Rightarrow> if is_digit d then py_digits (10 * acc + digit_of d) ds else None)
      else None)"

definition py_unsigned :: "string \<Rightarrow> int option" where
  "py_unsigned s =
     (case s of
        [] \<Rightarrow> None
      | c # cs \<Rightarrow> if is_digit c then py_digits (digit_of c) cs else None)"

definition py_int :: "string \<Rightarrow> int option" where
  "py_int s =
     (case strip s of
        [] \<Rightarrow> None
      | c # cs \<Rightarrow>
          if c = CHR ''-'' then map_option uminus (py_unsigned cs)
          else if c = CHR ''+'' then py_unsigned cs
          else py_unsigned (c # cs))"

text \<open>
  Truthiness of an optional string (\<open>if fmt:\<close>): \<open>None\<close> and the empty string are
  false. \<open>nonempty\<close> maps both to \<open>None\<close>; \<open>py_or\<close> is \<open>a or b\<close>, which yields \<open>b\<close>
  itself (even when \<open>b\<close> is empty) if \<open>a\<close> is false.
\<close>

definition nonempty :: "string option \<Rightarrow> string option" where
  "nonempty v = (case v of None \<Rightarrow> None | Some s \<Rightarrow> if s = [] then None else Some s)"

definition py_or :: "string option \<Rightarrow> string option \<Rightarrow> string option" where
  "py_or a b = (case nonempty a of Some s \<Rightarrow> Some s | None \<Rightarrow> b)"

subsection \<open>XML elements\<close>

text \<open>
  An \<open>ET.Element\<close> as the script reads it: tag, attribute dictionary, text (\<open>None\<close> when
  the element has none) and child elements.
\<close>

datatype elem = Elem (tag: string) (attrib: "string \<rightharpoonup> string") (etext: "string option")
  (children: "elem list")

definition text_or_empty :: "elem \<Rightarrow> string" where
  "text_or_empty e = (case etext e of None \<Rightarrow> [] | Some s \<Rightarrow> s)"

text \<open>\<open>_resolve_fmt\<close>, lines 25 to 35.\<close>

definition resolve_fmt :: "elem option \<Rightarrow> (string \<rightharpoonup> string) \<Rightarrow> string option" where
  "resolve_fmt elem by_id =
     (case elem of
        None \<Rightarrow> None
      | Some e \<Rightarrow>
          (case nonempty (attrib e ''fmt'') of
             Some fmt \<Rightarrow> Some fmt
           | None \<Rightarrow>
               (case nonempty (attrib e ''ref'') of
                  Some ref \<Rightarrow> by_id ref
                | None \<Rightarrow> nonempty (Some (strip (text_or_empty e))))))"

text \<open>\<open>_resolve_id\<close>, lines 38 to 41.\<close>

definition resolve_id :: "elem option \<Rightarrow> string option" where
  "resolve_id elem =
     (case elem of
        None \<Rightarrow> None
      | Some e \<Rightarrow> py_or (attrib e ''ref'') (attrib e ''id''))"

subsection \<open>The percentile estimator\<close>

text \<open>
  Python floats are modelled as exact reals, with \<open>NaN\<close> added: rounding and the
  overflow of converting a huge integer to a float are outside the model.
  List indexing follows Python: a negative index counts from the end, an index out of
  range raises \<open>IndexError\<close>.
\<close>

datatype pyfloat = NaN | Float real

datatype py_error = IndexError

definition py_index :: "'a list \<Rightarrow> int \<Rightarrow> py_error + 'a" where
  "py_index xs i =
     (if 0 \<le> i \<and> i < int (length xs) then Inr (xs ! nat i)
      else if i < 0 \<and> - int (length xs) \<le> i then Inr (xs ! nat (int (length xs) + i))
      else Inl IndexError)"

definition pct_idx :: "int list \<Rightarrow> real \<Rightarrow> real" where
  "pct_idx values_sorted p = p * real_of_int (int (length values_sorted) - 1)"

definition pct_lo :: "int list \<Rightarrow> real \<Rightarrow> int" where
  "pct_lo values_sorted p = \<lfloor>pct_idx values_sorted p\<rfloor>"

definition pct_hi :: "int list \<Rightarrow> real \<Rightarrow> int" where
  "pct_hi values_sorted p = \<lceil>pct_idx values_sorted p\<rceil>"

text \<open>\<open>_pct\<close>, lines 10 to 22.\<close>

definition pct :: "int list \<Rightarrow> real \<Rightarrow> py_error + pyfloat" where
  "pct values p =
     (if values = [] then Inr NaN
      else
        let values_sorted = sort values in
        if length values_sorted = 1 then Inr (Float (real_of_int (values_sorted ! 0)))
        else
          let idx = pct_idx values_sorted p;
              lo = pct_lo values_sorted p;
              hi = pct_hi values_sorted p
          in if lo = hi then
               (case py_index values_sorted lo of
                  Inl e \<Rightarrow> Inl e
                | Inr v \<Rightarrow> Inr (Float (real_of_int v)))
             else
               let frac = idx - real_of_int lo in
               (case py_index values_sorted lo of
                  Inl e \<Rightarrow> Inl e
                | Inr a \<Rightarrow>
                    (case py_index values_sorted hi of
                       Inl e \<Rightarrow> Inl e
                     | Inr b \<Rightarrow>
                         Inr (Float (real_of_int a * (1 - frac) + real_of_int b * frac)))))"


definition ns_to_ms :: "real \<Rightarrow> real" where
  "ns_to_ms ns = ns / 1000000"

subsection \<open>State of the pass\<close>

text \<open>
  The command-line arguments that the pass reads, and the variables of \<open>main\<close>
  (lines 62 to 73): five lookup tables from id to label, the open intervals keyed by
  (thread id, signpost identifier), the samples per interval name and two counters.
  The two dictionaries whose size or iteration order is printed are association lists
  in insertion order, as Python dictionaries are.
\<close>

record args =
  args_subsystem :: string
  args_category :: string
  args_top :: int

type_synonym interval_key = "string \<times> string"

type_synonym open_interval = "int \<times> string \<times> string option"

record state =
  event_type_fmt :: "string \<rightharpoonup> string"
  signpost_name_fmt :: "string \<rightharpoonup> string"
  subsystem_fmt :: "string \<rightharpoonup> string"
  category_fmt :: "string \<rightharpoonup> string"
  thread_fmt :: "string \<rightharpoonup> string"
  open_intervals :: "(interval_key \<times> open_interval) list"
  durations_by_name :: "(string \<times> int list) list"
  unmatched_ends :: int
  matched :: int

definition init_state :: state where
  "init_state =
     \<lparr>event_type_fmt = Map.empty, signpost_name_fmt = Map.empty, subsystem_fmt = Map.empty,
      category_fmt = Map.empty, thread_fmt = Map.empty, open_intervals = [],
      durations_by_name = [], unmatched_ends = 0, matched = 0\<rparr>"

text \<open>Lines 86 to 110: an element with an id and a label is entered in the table of its tag.\<close>

definition memo :: "elem \<Rightarrow> (string \<rightharpoonup> string) \<Rightarrow> (string \<rightharpoonup> string)" where
  "memo e tab =
     (case (nonempty (attrib e ''id''), nonempty (attrib e ''fmt'')) of
        (Some elem_id, Some fmt) \<Rightarrow> tab(elem_id \<mapsto> fmt)
      | _ \<Rightarrow> tab)"

definition register :: "state \<Rightarrow> elem \<Rightarrow> state" where
  "register s e =
     (if tag e = ''event-type'' then s\<lparr>event_type_fmt := memo e (event_type_fmt s)\<rparr>
      else if tag e = ''signpost-name'' then s\<lparr>signpost_name_fmt := memo e (signpost_name_fmt s)\<rparr>
      else if tag e = ''subsystem'' then s\<lparr>subsystem_fmt := memo e (subsystem_fmt s)\<rparr>
      else if tag e = ''category'' then s\<lparr>category_fmt := memo e (category_fmt s)\<rparr>
      else if tag e = ''thread'' then s\<lparr>thread_fmt := memo e (thread_fmt s)\<rparr>
      else s)"

subsection \<open>Reading one row\<close>

text \<open>The eight local variables of lines 117 to 124.\<close>

record row_fields =
  time_ns :: "int option"
  time_fmt :: "string option"
  event_kind :: "string option"
  name :: "string option"
  subsystem :: "string option"
  category :: "string option"
  thread_id :: "string option"
  signpost_id :: "string option"

definition no_fields :: row_fields where
  "no_fields =
     \<lparr>time_ns = None, time_fmt = None, event_kind = None, name = None, subsystem = None,
      category = None, thread_id = None, signpost_id = None\<rparr>"

text \<open>
  The body of the loop over the children, lines 127 to 163. A label that resolves to
  nothing leaves the variable as it was; an \<open>os-signpost-identifier\<close> child assigns
  whatever it yields.
\<close>

definition parse_child :: "state \<Rightarrow> row_fields \<Rightarrow> elem \<Rightarrow> row_fields" where
  "parse_child s f child =
     (let ctag = tag child in
      if ctag = ''event-time'' \<or> ctag = ''sample-time'' then
        (let t = strip (text_or_empty child);
             f1 = (if t \<noteq> [] then f\<lparr>time_ns := py_int t\<rparr> else f)
         in f1\<lparr>time_fmt := py_or (attrib child ''fmt'') (time_fmt f1)\<rparr>)
      else if ctag = ''event-type'' then
        (case nonempty (resolve_fmt (Some child) (event_type_fmt s)) of
           Some fmt \<Rightarrow> f\<lparr>event_kind := Some fmt\<rparr> | None \<Rightarrow> f)
      else if ctag = ''signpost-name'' then
        (case nonempty (resolve_fmt (Some child) (signpost_name_fmt s)) of
           Some fmt \<Rightarrow> f\<lparr>name := Some fmt\<rparr> | None \<Rightarrow> f)
      else if ctag = ''subsystem'' then
        (case nonempty (resolve_fmt (Some child) (subsystem_fmt s)) of
           Some fmt \<Rightarrow> f\<lparr>subsystem := Some fmt\<rparr> | None \<Rightarrow> f)
      else if ctag = ''category'' then
        (case nonempty (resolve_fmt (Some child) (category_fmt s)) of
           Some fmt \<Rightarrow> f\<lparr>category := Some fmt\<rparr> | None \<Rightarrow> f)
      else if ctag = ''thread'' then
        f\<lparr>thread_id := py_or (resolve_id (Some child)) (thread_id f)\<rparr>
      else if ctag = ''os-signpost-identifier'' then
        f\<lparr>signpost_id :=
            py_or (py_or (attrib child ''fmt'') (Some (strip (text_or_empty child))))
              (attrib child ''ref'')\<rparr>
      else f)"

definition parse_row :: "state \<Rightarrow> elem \<Rightarrow> row_fields" where
  "parse_row s e = foldl (parse_child s) no_fields (children e)"

subsection \<open>Filter and interval correlation\<close>

text \<open>
  Lines 166 to 172: \<open>None\<close> is the \<open>continue\<close> that drops the row; otherwise the five
  values that the rest of the body uses, each known to be present.
\<close>

definition accept :: "args \<Rightarrow> row_fields \<Rightarrow> (int \<times> string \<times> string \<times> string \<times> string) option" where
  "accept a f =
     (if \<not> (subsystem f = Some (args_subsystem a) \<and> category f = Some (args_category a))
      then None
      else
        (case (time_ns f, nonempty (event_kind f), nonempty (name f),
               nonempty (thread_id f), nonempty (signpost_id f)) of
           (Some t, Some ek, Some nm, Some th, Some sid) \<Rightarrow> Some (t, ek, nm, th, sid)
         | _ \<Rightarrow> None))"

definition is_begin :: "string \<Rightarrow> bool" where
  "is_begin ek = sublist ''begin'' (lower ek)"

definition is_end :: "string \<Rightarrow> bool" where
  "is_end ek = sublist ''end'' (lower ek)"

text \<open>Line 186: a begin stores its time, name and time label under the key.\<close>

definition begin_step :: "interval_key \<Rightarrow> int \<Rightarrow> string \<Rightarrow> string option \<Rightarrow> state \<Rightarrow> state" where
  "begin_step key t nm tfmt s =
     s\<lparr>open_intervals := AList.update key (t, nm, tfmt) (open_intervals s)\<rparr>"

text \<open>
  Lines 188 to 201: an end pops the key. \<open>durations_by_name\<close> is a \<open>defaultdict(list)\<close>:
  appending to a name that has no list yet creates it at the end of the dictionary.
\<close>

definition append_sample :: "string \<Rightarrow> int \<Rightarrow> (string \<times> int list) list \<Rightarrow> (string \<times> int list) list" where
  "append_sample nm dt d = AList.map_default nm [dt] (\<lambda>durs. durs @ [dt]) d"

definition end_step :: "interval_key \<Rightarrow> int \<Rightarrow> string \<Rightarrow> state \<Rightarrow> state" where
  "end_step key t nm s =
     (case map_of (open_intervals s) key of
        None \<Rightarrow> s\<lparr>unmatched_ends := unmatched_ends s + 1\<rparr>
      | Some (start_ns, start_name, start_fmt) \<Rightarrow>
          (let s1 = s\<lparr>open_intervals := AList.delete key (open_intervals s)\<rparr>;
               name_to_use = (if start_name \<noteq> nm then start_name else nm);
               dt = t - start_ns
           in if dt \<ge> 0
              then s1\<lparr>durations_by_name := append_sample name_to_use dt (durations_by_name s1),
                      matched := matched s1 + 1\<rparr>
              else s1))"

text \<open>Lines 174 to 201, for a row that passed the filter.\<close>

definition correlate ::
  "state \<Rightarrow> string option \<Rightarrow> int \<times> string \<times> string \<times> string \<times> string \<Rightarrow> state" where
  "correlate s tfmt r =
     (case r of (t, ek, nm, th, sid) \<Rightarrow>
        if \<not> (is_begin ek \<or> is_end ek) then s
        else
          let key = (th, sid) in
          if is_begin ek \<and> \<not> is_end ek then begin_step key t nm tfmt s
          else if is_end ek \<and> \<not> is_begin ek then end_step key t nm s
          else s)"

definition process_row :: "args \<Rightarrow> state \<Rightarrow> row_fields \<Rightarrow> state" where
  "process_row a s f =
     (case accept a f of None \<Rightarrow> s | Some r \<Rightarrow> correlate s (time_fmt f) r)"

subsection \<open>The pass over the stream\<close>

text \<open>
  One iteration of the loop of line 82, on the element as the iteration reads it; the
  loop itself, from the initial variables.
\<close>

definition step :: "args \<Rightarrow> state \<Rightarrow> elem \<Rightarrow> state" where
  "step a s e =
     (let s1 = register s e
      in if tag e \<noteq> ''row'' then s1 else process_row a s1 (parse_row s1 e))"

definition main_loop :: "args \<Rightarrow> elem list \<Rightarrow> state" where
  "main_loop a evs = foldl (step a) init_state evs"

text \<open>
  Every path through the loop body ends with \<open>elem.clear()\<close> (lines 113, 167, 171, 180
  and 204), which empties the attributes, the text and the children of the element
  object, and keeps its tag. \<open>ET.iterparse\<close> with \<open>events=("end",)\<close> delivers each
  element when its end tag is read, so children come before their parent, and the
  objects delivered are the ones that the parent holds as its children. The elements,
  as the iterations read them, for a document:
\<close>

fun cleared :: "elem \<Rightarrow> elem" where
  "cleared (Elem t a x cs) = Elem t Map.empty None []"

fun end_events :: "elem \<Rightarrow> elem list" where
  "end_events (Elem t a x cs) = concat (map end_events cs) @ [Elem t a x (map cleared cs)]"

subsection \<open>The report\<close>

text \<open>
  Lines 207 to 222: one row for each name in the dictionary, sorted by total, largest
  first; the sort is stable. An error raised while a row is computed ends \<open>main\<close>.
\<close>

record report_row =
  total :: int
  interval_name :: string
  count :: nat
  avg :: pyfloat
  p50 :: pyfloat
  p95 :: pyfloat
  mx :: int

definition make_row :: "string \<times> int list \<Rightarrow> py_error + report_row" where
  "make_row entry =
     (case entry of (nm, durs) \<Rightarrow>
        let tot = sum_list durs in
        (case pct durs (50 / 100) of
           Inl e \<Rightarrow> Inl e
         | Inr q50 \<Rightarrow>
             (case pct durs (95 / 100) of
                Inl e \<Rightarrow> Inl e
              | Inr q95 \<Rightarrow>
                  Inr \<lparr>total = tot, interval_name = nm, count = length durs,
                       avg = (if durs \<noteq> [] then Float (real_of_int tot / real (length durs))
                              else NaN),
                       p50 = q50, p95 = q95,
                       mx = (if durs \<noteq> [] then fold max (tl durs) (hd durs) else 0)\<rparr>)))"

fun make_rows :: "(string \<times> int list) list \<Rightarrow> py_error + report_row list" where
  "make_rows [] = Inr []"
| "make_rows (entry # rest) =
     (case make_row entry of
        Inl e \<Rightarrow> Inl e
      | Inr r \<Rightarrow> (case make_rows rest of Inl e \<Rightarrow> Inl e | Inr rs \<Rightarrow> Inr (r # rs)))"

definition report_rows :: "state \<Rightarrow> py_error + report_row list" where
  "report_rows s =
     (case make_rows (durations_by_name s) of
        Inl e \<Rightarrow> Inl e
      | Inr rs \<Rightarrow> Inr (sort_key (\<lambda>r. - total r) rs))"

text \<open>The slice \<open>rows[:top]\<close> of line 232: a negative bound counts from the end.\<close>

definition py_take :: "int \<Rightarrow> 'a list \<Rightarrow> 'a list" where
  "py_take n xs = (if n < 0 then take (nat (int (length xs) + n)) xs else take (nat n) xs)"

text \<open>
  What lines 224 to 235 print: the three numbers of the header line and the rows of
  the table (the layout of the text is not modelled).
\<close>

record summary =
  matched_intervals :: int
  open_intervals_remaining :: nat
  unmatched_end_events :: int
  printed_rows :: "report_row list"

definition report :: "args \<Rightarrow> state \<Rightarrow> py_error + summary" where
  "report a s =
     (case report_rows s of
        Inl e \<Rightarrow> Inl e
      | Inr rs \<Rightarrow>
          Inr \<lparr>matched_intervals = matched s,
               open_intervals_remaining = length (open_intervals s),
               unmatched_end_events = unmatched_ends s,
               printed_rows = py_take (args_top a) rs\<rparr>)"

text \<open>\<open>main\<close> on a well-formed document.\<close>

definition main :: "args \<Rightarrow> elem \<Rightarrow> py_error + summary" where
  "main a doc = report a (main_loop a (end_events doc))"


section \<open>Properties\<close>

subsection \<open>The field resolver\<close>

text \<open>
  Claim C1, as amended. \<open>_resolve_fmt\<close> returns the inline label when the node carries
  a non-empty one. Otherwise, when the node carries a non-empty reference id, it returns
  what the table holds under that id, and nothing when the table has no entry, whatever
  the raw text of the node is. Otherwise it returns the trimmed raw text, and nothing when
  that is empty.
\<close>

theorem resolve_fmt_precedence:
  "(nonempty (attrib e ''fmt'') = Some fmt \<longrightarrow> resolve_fmt (Some e) by_id = Some fmt) \<and>
   (nonempty (attrib e ''fmt'') = None \<and> nonempty (attrib e ''ref'') = Some ref \<longrightarrow>
      resolve_fmt (Some e) by_id = by_id ref) \<and>
   (nonempty (attrib e ''fmt'') = None \<and> nonempty (attrib e ''ref'') = None \<longrightarrow>
      resolve_fmt (Some e) by_id =
        (if strip (text_or_empty e) = [] then None else Some (strip (text_or_empty e))))"
  by (simp add: resolve_fmt_def nonempty_def)

text \<open>
  The three cases at three nodes: an inline label, a reference that the table knows,
  and raw text only.
\<close>

theorem resolve_fmt_precedence_witness:
  "resolve_fmt (Some (Elem ''event-type'' [''fmt'' \<mapsto> ''Begin'', ''ref'' \<mapsto> ''5''] (Some ''x'') []))
     [''5'' \<mapsto> ''End''] = Some ''Begin'' \<and>
   resolve_fmt (Some (Elem ''event-type'' [''ref'' \<mapsto> ''5''] (Some ''x'') []))
     [''5'' \<mapsto> ''End''] = Some ''End'' \<and>
   resolve_fmt (Some (Elem ''event-type'' Map.empty (Some '' Begin '') [])) [''5'' \<mapsto> ''End'']
     = Some ''Begin''"
proof -
  let ?t = "[''5'' \<mapsto> ''End'']"
  let ?e1 = "Elem ''event-type'' [''fmt'' \<mapsto> ''Begin'', ''ref'' \<mapsto> ''5''] (Some ''x'') []"
  let ?e2 = "Elem ''event-type'' [''ref'' \<mapsto> ''5''] (Some ''x'') []"
  let ?e3 = "Elem ''event-type'' Map.empty (Some '' Begin '') []"
  have h1: "nonempty (attrib ?e1 ''fmt'') = Some ''Begin''"
    by (simp add: nonempty_def)
  have h2: "nonempty (attrib ?e2 ''fmt'') = None \<and> nonempty (attrib ?e2 ''ref'') = Some ''5''"
    by (simp add: nonempty_def)
  have h3: "nonempty (attrib ?e3 ''fmt'') = None \<and> nonempty (attrib ?e3 ''ref'') = None"
    by (simp add: nonempty_def)
  have t3: "strip (text_or_empty ?e3) = ''Begin''"
    by (simp add: strip_def text_or_empty_def py_isspace_def)
  show ?thesis
    using resolve_fmt_precedence [where e = ?e1 and by_id = ?t and fmt = "''Begin''"] h1
      resolve_fmt_precedence [where e = ?e2 and by_id = ?t and ref = "''5''"] h2
      resolve_fmt_precedence [where e = ?e3 and by_id = ?t] h3 t3
    by simp
qed

text \<open>
  Claim C1 as it is written fails: a node whose reference id misses the table and whose
  raw text is \<open>Load\<close> resolves to nothing, not to \<open>Load\<close>.
\<close>

theorem resolve_fmt_ref_miss_counterexample:
  "attrib (Elem ''signpost-name'' [''ref'' \<mapsto> ''7''] (Some ''Load'') []) ''ref'' = Some ''7'' \<and>
   (Map.empty :: string \<rightharpoonup> string) ''7'' = None \<and>
   strip (text_or_empty (Elem ''signpost-name'' [''ref'' \<mapsto> ''7''] (Some ''Load'') [])) = ''Load'' \<and>
   resolve_fmt (Some (Elem ''signpost-name'' [''ref'' \<mapsto> ''7''] (Some ''Load'') [])) Map.empty
     \<noteq> Some ''Load'' \<and>
   resolve_fmt (Some (Elem ''signpost-name'' [''ref'' \<mapsto> ''7''] (Some ''Load'') [])) Map.empty
     = None"
  by (simp add: resolve_fmt_def nonempty_def text_or_empty_def strip_def py_isspace_def)

subsection \<open>The percentile estimator\<close>














subsection \<open>The timestamp of a row\<close>






subsection \<open>Transitions of the correlator\<close>

lemma update_update_same: "AList.update k v (AList.update k w al) = AList.update k v al"
  by (induction al) auto

lemma begin_step_twice:
  "begin_step key t2 n2 f2 (begin_step key t1 n1 f1 s) = begin_step key t2 n2 f2 s"
  by (simp add: begin_step_def update_update_same)

lemma end_step_name_irrelevant: "end_step key t nm s = end_step key t nm' s"
  by (simp add: end_step_def Let_def split: option.splits)

lemma end_step_matched:
  assumes "map_of (open_intervals s) key = Some (start_ns, start_name, start_fmt)" "start_ns \<le> t"
  shows "end_step key t nm s =
     s\<lparr>open_intervals := AList.delete key (open_intervals s),
       durations_by_name := append_sample start_name (t - start_ns) (durations_by_name s),
       matched := matched s + 1\<rparr>"
  using assms by (simp add: end_step_def Let_def)

lemma end_step_negative:
  assumes "map_of (open_intervals s) key = Some (start_ns, start_name, start_fmt)" "t < start_ns"
  shows "end_step key t nm s = s\<lparr>open_intervals := AList.delete key (open_intervals s)\<rparr>"
  using assms by (simp add: end_step_def Let_def)

lemma map_of_append_sample:
  "map_of (append_sample nm dt d) =
     (map_of d)(nm \<mapsto> (case map_of d nm of None \<Rightarrow> [] | Some l \<Rightarrow> l) @ [dt])"
  unfolding append_sample_def AList.map_of_map_default
  by (auto split: option.splits)

lemma process_row_accepted:
  "accept a f = Some (t, ek, nm, th, sid) \<Longrightarrow>
     process_row a s f =
       (if is_begin ek \<and> \<not> is_end ek then begin_step (th, sid) t nm (time_fmt f) s
        else if is_end ek \<and> \<not> is_begin ek then end_step (th, sid) t nm s
        else s)"
  by (simp add: process_row_def correlate_def)

lemma accept_Some:
  "accept a f = Some (t, ek, nm, th, sid) \<longleftrightarrow>
     subsystem f = Some (args_subsystem a) \<and> category f = Some (args_category a) \<and>
     time_ns f = Some t \<and> event_kind f = Some ek \<and> ek \<noteq> [] \<and> name f = Some nm \<and> nm \<noteq> [] \<and>
     thread_id f = Some th \<and> th \<noteq> [] \<and> signpost_id f = Some sid \<and> sid \<noteq> []"
  unfolding accept_def nonempty_def
  by (auto split: option.splits if_splits)

lemma accept_None:
  "accept a f \<noteq> None \<longleftrightarrow>
     subsystem f = Some (args_subsystem a) \<and> category f = Some (args_category a) \<and>
     time_ns f \<noteq> None \<and> nonempty (event_kind f) \<noteq> None \<and> nonempty (name f) \<noteq> None \<and>
     nonempty (thread_id f) \<noteq> None \<and> nonempty (signpost_id f) \<noteq> None"
  unfolding accept_def
  by (auto split: option.splits)

lemma sublist_lower:
  "sublist w (lower ek) \<longleftrightarrow> (\<exists>u. sublist u ek \<and> lower u = w)"
proof
  assume "sublist w (lower ek)"
  then obtain ps ss where "map lower_char ek = ps @ w @ ss"
    unfolding sublist_def lower_def by blast
  then obtain us vs where u: "ek = us @ vs" "w @ ss = map lower_char vs"
    unfolding map_eq_append_conv by blast
  from u(2) obtain u v where v: "vs = u @ v" "w = map lower_char u"
    by (metis map_eq_append_conv)
  have "sublist u ek" unfolding u(1) v(1) sublist_def by blast
  then show "\<exists>u. sublist u ek \<and> lower u = w" using v(2) by (auto simp: lower_def)
next
  assume "\<exists>u. sublist u ek \<and> lower u = w"
  then obtain u where "sublist u ek" "lower u = w" by blast
  then show "sublist w (lower ek)"
    unfolding lower_def by (auto dest: map_mono_sublist)
qed

text \<open>
  Claim C3. When an end meets an open interval and the difference of the times is not
  negative, the sample is appended to the list of the name that the begin stored; the
  lists of all other names stay as they are; and the name of the end record has no
  influence on the resulting state at all.
\<close>

theorem sample_attributed_to_begin_name:
  assumes "map_of (open_intervals s) key = Some (start_ns, start_name, start_fmt)"
    and "start_ns \<le> t"
  shows "map_of (durations_by_name (end_step key t nm s)) start_name =
           Some ((case map_of (durations_by_name s) start_name of None \<Rightarrow> [] | Some l \<Rightarrow> l)
                 @ [t - start_ns]) \<and>
         (\<forall>n. n \<noteq> start_name \<longrightarrow>
            map_of (durations_by_name (end_step key t nm s)) n = map_of (durations_by_name s) n) \<and>
         end_step key t nm s = end_step key t nm' s"
  using end_step_matched [OF assms, of nm] end_step_name_irrelevant [of key t nm s nm']
  by (simp add: map_of_append_sample)

text \<open>
  A begin named \<open>Fetch\<close> at 1000 and an end named \<open>FetchDone\<close> at 1500: the sample 500
  is listed under \<open>Fetch\<close>, and \<open>FetchDone\<close> has no list.
\<close>

theorem sample_attributed_to_begin_name_witness:
  "map_of (open_intervals (begin_step (''t1'', ''0xE'') 1000 ''Fetch'' None init_state))
      (''t1'', ''0xE'') = Some (1000, ''Fetch'', None) \<and> (1000 :: int) \<le> 1500 \<and>
   map_of (durations_by_name (end_step (''t1'', ''0xE'') 1500 ''FetchDone''
      (begin_step (''t1'', ''0xE'') 1000 ''Fetch'' None init_state))) ''Fetch'' = Some [500] \<and>
   map_of (durations_by_name (end_step (''t1'', ''0xE'') 1500 ''FetchDone''
      (begin_step (''t1'', ''0xE'') 1000 ''Fetch'' None init_state))) ''FetchDone'' = None"
proof -
  let ?s = "begin_step (''t1'', ''0xE'') 1000 ''Fetch'' None init_state"
  have h: "map_of (open_intervals ?s) (''t1'', ''0xE'') = Some (1000, ''Fetch'', None)"
    by (simp add: begin_step_def init_state_def)
  have d: "durations_by_name ?s = []" by (simp add: begin_step_def init_state_def)
  show ?thesis
    using sample_attributed_to_begin_name [OF h, of 1500 "''FetchDone''" "''FetchDone''"] h
    by (simp add: d)
qed

subsection \<open>Invariants of the pass\<close>

text \<open>
  Each iteration enters a label in a table and then leaves the state alone, or performs
  a begin or an end transition. A property of the initial state that the three preserve
  holds after every prefix of the stream.
\<close>

lemma correlate_cases:
  "correlate s tfmt r = s \<or>
   (\<exists>key t nm. correlate s tfmt r = begin_step key t nm tfmt s) \<or>
   (\<exists>key t nm. correlate s tfmt r = end_step key t nm s)"
proof -
  obtain t ek nm th sid where r: "r = (t, ek, nm, th, sid)" by (cases r) auto
  have "correlate s tfmt r =
      (if is_begin ek \<and> \<not> is_end ek then begin_step (th, sid) t nm tfmt s
       else if is_end ek \<and> \<not> is_begin ek then end_step (th, sid) t nm s
       else s)"
    by (simp add: r correlate_def)
  then show ?thesis by metis
qed

lemma step_cases:
  "step a s e = register s e \<or>
   (\<exists>key t nm tfmt. step a s e = begin_step key t nm tfmt (register s e)) \<or>
   (\<exists>key t nm. step a s e = end_step key t nm (register s e))"
proof (cases "tag e \<noteq> ''row''")
  case True
  then show ?thesis by (simp add: step_def)
next
  case False
  then have st: "step a s e = process_row a (register s e) (parse_row (register s e) e)"
    by (simp add: step_def Let_def)
  show ?thesis
  proof (cases "accept a (parse_row (register s e) e)")
    case None
    then show ?thesis by (simp add: st process_row_def)
  next
    case (Some r)
    then have "step a s e = correlate (register s e) (time_fmt (parse_row (register s e) e)) r"
      by (simp add: st process_row_def)
    then show ?thesis
      using correlate_cases [of "register s e" "time_fmt (parse_row (register s e) e)" r]
      by metis
  qed
qed

lemma main_loop_snoc: "main_loop a (evs @ [e]) = step a (main_loop a evs) e"
  by (simp add: main_loop_def)

lemma main_loop_invariant:
  assumes init: "P init_state"
    and reg: "\<And>s e. P s \<Longrightarrow> P (register s e)"
    and beg: "\<And>s key t nm tfmt. P s \<Longrightarrow> P (begin_step key t nm tfmt s)"
    and en: "\<And>s key t nm. P s \<Longrightarrow> P (end_step key t nm s)"
  shows "P (main_loop a evs)"
proof (induction evs rule: rev_induct)
  case Nil
  show ?case using init by (simp add: main_loop_def)
next
  case (snoc e evs)
  have r: "P (register (main_loop a evs) e)" using snoc by (rule reg)
  from step_cases [of a "main_loop a evs" e] show ?case
    unfolding main_loop_snoc using r beg en by (elim disjE exE) simp_all
qed

lemma register_fields [simp]:
  "open_intervals (register s e) = open_intervals s"
  "durations_by_name (register s e) = durations_by_name s"
  "unmatched_ends (register s e) = unmatched_ends s"
  "matched (register s e) = matched s"
  by (simp_all add: register_def)

lemma begin_step_fields [simp]:
  "durations_by_name (begin_step key t nm tfmt s) = durations_by_name s"
  "unmatched_ends (begin_step key t nm tfmt s) = unmatched_ends s"
  "matched (begin_step key t nm tfmt s) = matched s"
  by (simp_all add: begin_step_def)


lemma append_sample_set:
  "(n, l) \<in> set (append_sample nm dt d) \<Longrightarrow>
     (n, l) \<in> set d \<or> (n = nm \<and> (l = [dt] \<or> (\<exists>l'. (n, l') \<in> set d \<and> l = l' @ [dt])))"
  unfolding append_sample_def
  by (induction d) (auto split: if_splits)

lemma end_step_durations:
  "durations_by_name (end_step key t nm s) = durations_by_name s \<and> matched (end_step key t nm s) = matched s \<or>
   (\<exists>n dt. 0 \<le> dt \<and> durations_by_name (end_step key t nm s) = append_sample n dt (durations_by_name s)
      \<and> matched (end_step key t nm s) = matched s + 1)"
proof (cases "map_of (open_intervals s) key")
  case None
  then show ?thesis by (simp add: end_step_def)
next
  case (Some v)
  obtain start_ns start_name start_fmt where v: "v = (start_ns, start_name, start_fmt)"
    by (cases v) auto
  show ?thesis
  proof (cases "0 \<le> t - start_ns")
    case True
    then have "durations_by_name (end_step key t nm s)
        = append_sample start_name (t - start_ns) (durations_by_name s)
      \<and> matched (end_step key t nm s) = matched s + 1"
      using Some by (simp add: end_step_def v Let_def)
    with True show ?thesis by blast
  next
    case False
    then show ?thesis using Some by (simp add: end_step_def v Let_def)
  qed
qed


lemma samples_ok_append:
  assumes "\<forall>entry \<in> set d. snd entry \<noteq> [] \<and> (\<forall>x \<in> set (snd entry). 0 \<le> x)"
    and "0 \<le> dt"
  shows "\<forall>entry \<in> set (append_sample nm dt d).
           snd entry \<noteq> [] \<and> (\<forall>x \<in> set (snd entry). 0 \<le> x)"
  using assms by (auto dest!: append_sample_set)

lemma samples_invariant:
  "\<forall>entry \<in> set (durations_by_name (main_loop a evs)).
     snd entry \<noteq> [] \<and> (\<forall>x \<in> set (snd entry). 0 \<le> x)"
proof (rule main_loop_invariant
    [where P = "\<lambda>s. \<forall>entry \<in> set (durations_by_name s).
                     snd entry \<noteq> [] \<and> (\<forall>x \<in> set (snd entry). 0 \<le> x)"])
  show "\<forall>entry \<in> set (durations_by_name init_state).
          snd entry \<noteq> [] \<and> (\<forall>x \<in> set (snd entry). 0 \<le> x)"
    by (simp add: init_state_def)
next
  fix s :: state and key t nm
  assume ok: "\<forall>entry \<in> set (durations_by_name s).
                snd entry \<noteq> [] \<and> (\<forall>x \<in> set (snd entry). 0 \<le> x)"
  from end_step_durations [of key t nm s]
  show "\<forall>entry \<in> set (durations_by_name (end_step key t nm s)).
          snd entry \<noteq> [] \<and> (\<forall>x \<in> set (snd entry). 0 \<le> x)"
  proof (elim disjE exE conjE)
    assume "durations_by_name (end_step key t nm s) = durations_by_name s"
    then show ?thesis using ok by simp
  next
    fix n dt
    assume "0 \<le> dt"
      and "durations_by_name (end_step key t nm s) = append_sample n dt (durations_by_name s)"
    then show ?thesis using samples_ok_append [OF ok, of dt n] by simp
  qed
qed simp_all

lemma open_distinct_invariant: "distinct (map fst (open_intervals (main_loop a evs)))"
proof (rule main_loop_invariant)
  show "distinct (map fst (open_intervals init_state))" by (simp add: init_state_def)
next
  fix s :: state and key t nm tfmt
  assume "distinct (map fst (open_intervals s))"
  then show "distinct (map fst (open_intervals (begin_step key t nm tfmt s)))"
    by (simp add: begin_step_def AList.distinct_update)
next
  fix s :: state and key t nm
  assume "distinct (map fst (open_intervals s))"
  then show "distinct (map fst (open_intervals (end_step key t nm s)))"
    by (auto simp: end_step_def Let_def AList.distinct_delete split: option.splits)
qed simp_all

text \<open>
  Claim C4. After any prefix of the stream every sample in every list is nonnegative.
  When an end meets an open interval whose start time is later than the end time, no
  sample is recorded, neither counter changes, and the entry of the key is removed.
\<close>

theorem samples_nonnegative:
  "(\<forall>entry \<in> set (durations_by_name (main_loop a evs)). \<forall>dt \<in> set (snd entry). 0 \<le> dt) \<and>
   (map_of (open_intervals s) key = Some (start_ns, start_name, start_fmt) \<and> t < start_ns \<longrightarrow>
      durations_by_name (end_step key t nm s) = durations_by_name s \<and>
      matched (end_step key t nm s) = matched s \<and>
      unmatched_ends (end_step key t nm s) = unmatched_ends s \<and>
      open_intervals (end_step key t nm s) = AList.delete key (open_intervals s) \<and>
      map_of (open_intervals (end_step key t nm s)) key = None)"
proof -
  have "\<forall>entry \<in> set (durations_by_name (main_loop a evs)). \<forall>dt \<in> set (snd entry). 0 \<le> dt"
    using samples_invariant [of a evs] by blast
  moreover have "durations_by_name (end_step key t nm s) = durations_by_name s \<and>
      matched (end_step key t nm s) = matched s \<and>
      unmatched_ends (end_step key t nm s) = unmatched_ends s \<and>
      open_intervals (end_step key t nm s) = AList.delete key (open_intervals s) \<and>
      map_of (open_intervals (end_step key t nm s)) key = None"
    if "map_of (open_intervals s) key = Some (start_ns, start_name, start_fmt)" "t < start_ns"
    using end_step_negative [OF that, of nm] by (simp add: AList.delete_conv')
  ultimately show ?thesis by blast
qed

text \<open>
  A stream that records the sample 4000, and a begin at 2000 followed by an end at
  1000, which leads back to the initial state.
\<close>

theorem samples_nonnegative_witness:
  "durations_by_name (main_loop
      \<lparr>args_subsystem = ''engine-sim'', args_category = ''perf'', args_top = 20\<rparr>
      [Elem ''row'' Map.empty None
        [Elem ''event-time'' Map.empty (Some ''1000'') [],
         Elem ''event-type'' [''fmt'' \<mapsto> ''Begin''] None [],
         Elem ''signpost-name'' [''fmt'' \<mapsto> ''Load''] None [],
         Elem ''subsystem'' [''fmt'' \<mapsto> ''engine-sim''] None [],
         Elem ''category'' [''fmt'' \<mapsto> ''perf''] None [],
         Elem ''thread'' [''id'' \<mapsto> ''t1''] None [],
         Elem ''os-signpost-identifier'' [''fmt'' \<mapsto> ''0xA''] None []],
       Elem ''row'' Map.empty None
        [Elem ''event-time'' Map.empty (Some ''5000'') [],
         Elem ''event-type'' [''fmt'' \<mapsto> ''End''] None [],
         Elem ''signpost-name'' [''fmt'' \<mapsto> ''Load''] None [],
         Elem ''subsystem'' [''fmt'' \<mapsto> ''engine-sim''] None [],
         Elem ''category'' [''fmt'' \<mapsto> ''perf''] None [],
         Elem ''thread'' [''id'' \<mapsto> ''t1''] None [],
         Elem ''os-signpost-identifier'' [''fmt'' \<mapsto> ''0xA''] None []]]) = [(''Load'', [4000])] \<and>
   (0 :: int) \<le> 4000 \<and>
   map_of (open_intervals (begin_step (''t1'', ''0xF'') 2000 ''Load'' None init_state))
      (''t1'', ''0xF'') = Some (2000, ''Load'', None) \<and> (1000 :: int) < 2000 \<and>
   end_step (''t1'', ''0xF'') 1000 ''Load'' (begin_step (''t1'', ''0xF'') 2000 ''Load'' None init_state)
     = init_state"
proof -
  let ?a = "\<lparr>args_subsystem = ''engine-sim'', args_category = ''perf'', args_top = 20\<rparr>"
  let ?evs = "[Elem ''row'' Map.empty None
        [Elem ''event-time'' Map.empty (Some ''1000'') [],
         Elem ''event-type'' [''fmt'' \<mapsto> ''Begin''] None [],
         Elem ''signpost-name'' [''fmt'' \<mapsto> ''Load''] None [],
         Elem ''subsystem'' [''fmt'' \<mapsto> ''engine-sim''] None [],
         Elem ''category'' [''fmt'' \<mapsto> ''perf''] None [],
         Elem ''thread'' [''id'' \<mapsto> ''t1''] None [],
         Elem ''os-signpost-identifier'' [''fmt'' \<mapsto> ''0xA''] None []],
       Elem ''row'' Map.empty None
        [Elem ''event-time'' Map.empty (Some ''5000'') [],
         Elem ''event-type'' [''fmt'' \<mapsto> ''End''] None [],
         Elem ''signpost-name'' [''fmt'' \<mapsto> ''Load''] None [],
         Elem ''subsystem'' [''fmt'' \<mapsto> ''engine-sim''] None [],
         Elem ''category'' [''fmt'' \<mapsto> ''perf''] None [],
         Elem ''thread'' [''id'' \<mapsto> ''t1''] None [],
         Elem ''os-signpost-identifier'' [''fmt'' \<mapsto> ''0xA''] None []]]"
  let ?s = "begin_step (''t1'', ''0xF'') 2000 ''Load'' None init_state"
  have d: "durations_by_name (main_loop ?a ?evs) = [(''Load'', [4000])]"
    by code_simp
  have h: "map_of (open_intervals ?s) (''t1'', ''0xF'') = Some (2000, ''Load'', None)"
    by (simp add: begin_step_def init_state_def)
  have e: "end_step (''t1'', ''0xF'') 1000 ''Load'' ?s = init_state"
    by (simp add: end_step_def begin_step_def init_state_def)
  show ?thesis
    using samples_nonnegative [of ?a ?evs ?s "(''t1'', ''0xF'')" 2000 "''Load''" None 1000 "''Load''"]
      d h e
    by simp
qed

text \<open>
  Claim C5. The keys of the open intervals are distinct after any prefix of the stream.
  A begin stores its own time and name under its key whatever was stored there, leaves
  the other keys, the samples and both counters as they are, and a begin on top of an
  earlier begin for the same key gives the state that the later begin alone gives; an
  end that follows uses the time and the name of the later begin.
\<close>

theorem begin_replaces_open_interval:
  "distinct (map fst (open_intervals (main_loop a evs))) \<and>
   map_of (open_intervals (begin_step key t nm tfmt s)) key = Some (t, nm, tfmt) \<and>
   (\<forall>k. k \<noteq> key \<longrightarrow>
      map_of (open_intervals (begin_step key t nm tfmt s)) k = map_of (open_intervals s) k) \<and>
   durations_by_name (begin_step key t nm tfmt s) = durations_by_name s \<and>
   matched (begin_step key t nm tfmt s) = matched s \<and>
   unmatched_ends (begin_step key t nm tfmt s) = unmatched_ends s \<and>
   begin_step key t nm tfmt (begin_step key t1 n1 f1 s) = begin_step key t nm tfmt s \<and>
   (t \<le> t3 \<longrightarrow>
      end_step key t3 n3 (begin_step key t nm tfmt (begin_step key t1 n1 f1 s)) =
        s\<lparr>open_intervals := AList.delete key (open_intervals s),
          durations_by_name := append_sample nm (t3 - t) (durations_by_name s),
          matched := matched s + 1\<rparr>)"
proof -
  have m: "map_of (open_intervals (begin_step key t nm tfmt s)) key = Some (t, nm, tfmt)"
    by (simp add: begin_step_def AList.update_conv')
  have "end_step key t3 n3 (begin_step key t nm tfmt (begin_step key t1 n1 f1 s)) =
        s\<lparr>open_intervals := AList.delete key (open_intervals s),
          durations_by_name := append_sample nm (t3 - t) (durations_by_name s),
          matched := matched s + 1\<rparr>" if "t \<le> t3"
    unfolding begin_step_twice using end_step_matched [OF m that, of n3]
    by (simp add: begin_step_def AList.delete_update_same)
  then show ?thesis
    using open_distinct_invariant [of a evs] m
    by (simp add: begin_step_twice) (simp add: begin_step_def AList.update_conv')
qed

text \<open>
  Begins at 100 (\<open>Load\<close>) and 200 (\<open>Load2\<close>) on one key and an end at 300: one sample
  of 100 under \<open>Load2\<close>.
\<close>

theorem begin_replaces_open_interval_witness:
  "open_intervals (begin_step (''t1'', ''0xD'') 200 ''Load2'' None
      (begin_step (''t1'', ''0xD'') 100 ''Load'' None
        (begin_step (''t2'', ''0xD'') 50 ''Other'' None init_state))) =
     [((''t2'', ''0xD''), (50, ''Other'', None)), ((''t1'', ''0xD''), (200, ''Load2'', None))] \<and>
   (200 :: int) \<le> 300 \<and>
   durations_by_name (end_step (''t1'', ''0xD'') 300 ''Load2''
      (begin_step (''t1'', ''0xD'') 200 ''Load2'' None
        (begin_step (''t1'', ''0xD'') 100 ''Load'' None init_state))) = [(''Load2'', [100])] \<and>
   matched (end_step (''t1'', ''0xD'') 300 ''Load2''
      (begin_step (''t1'', ''0xD'') 200 ''Load2'' None
        (begin_step (''t1'', ''0xD'') 100 ''Load'' None init_state))) = 1"
proof -
  let ?k = "(''t1'', ''0xD'')"
  let ?s0 = "begin_step (''t2'', ''0xD'') 50 ''Other'' None init_state"
  have o: "open_intervals (begin_step ?k 200 ''Load2'' None (begin_step ?k 100 ''Load'' None ?s0)) =
     [((''t2'', ''0xD''), (50, ''Other'', None)), ((''t1'', ''0xD''), (200, ''Load2'', None))]"
    by (simp add: begin_step_def init_state_def)
  have le: "(200 :: int) \<le> 300" by simp
  have e: "end_step ?k 300 ''Load2''
      (begin_step ?k 200 ''Load2'' None (begin_step ?k 100 ''Load'' None init_state)) =
     init_state\<lparr>open_intervals := AList.delete ?k (open_intervals init_state),
       durations_by_name := append_sample ''Load2'' (300 - 200) (durations_by_name init_state),
       matched := matched init_state + 1\<rparr>"
    using begin_replaces_open_interval
      [of _ "[]" ?k 200 "''Load2''" None init_state 100 "''Load''" None 300 "''Load2''"] le
    by blast
  show ?thesis unfolding e using o
    by (simp add: init_state_def append_sample_def)
qed

subsection \<open>The filter\<close>

text \<open>
  Claim C6. A row passes the filter exactly when its subsystem and category equal the
  configured strings and timestamp, kind, name, thread id and signpost id are present
  (the strings not empty). A row that does not pass leaves the state as it is. A row that
  passes takes the begin transition when its kind contains \<open>begin\<close> and not \<open>end\<close>, the
  end transition when it contains \<open>end\<close> and not \<open>begin\<close>, and leaves the state as it
  is when it contains both or neither. Containing is up to case: some stretch of the
  kind is the word once lowered.
\<close>

theorem filter_and_classification:
  "(accept a f \<noteq> None \<longleftrightarrow>
      subsystem f = Some (args_subsystem a) \<and> category f = Some (args_category a) \<and>
      time_ns f \<noteq> None \<and> nonempty (event_kind f) \<noteq> None \<and> nonempty (name f) \<noteq> None \<and>
      nonempty (thread_id f) \<noteq> None \<and> nonempty (signpost_id f) \<noteq> None) \<and>
   (accept a f = None \<longrightarrow> process_row a s f = s) \<and>
   (accept a f = Some (t, ek, nm, th, sid) \<longrightarrow>
      time_ns f = Some t \<and> event_kind f = Some ek \<and> name f = Some nm \<and>
      thread_id f = Some th \<and> signpost_id f = Some sid \<and>
      process_row a s f =
        (if is_begin ek \<and> \<not> is_end ek then begin_step (th, sid) t nm (time_fmt f) s
         else if is_end ek \<and> \<not> is_begin ek then end_step (th, sid) t nm s
         else s) \<and>
      (is_begin ek = is_end ek \<longrightarrow> process_row a s f = s)) \<and>
   (is_begin k \<longleftrightarrow> (\<exists>w. sublist w k \<and> lower w = ''begin'')) \<and>
   (is_end k \<longleftrightarrow> (\<exists>w. sublist w k \<and> lower w = ''end''))"
proof -
  have "process_row a s f = s" if "accept a f = None"
    using that by (simp add: process_row_def)
  moreover have "time_ns f = Some t \<and> event_kind f = Some ek \<and> name f = Some nm \<and>
      thread_id f = Some th \<and> signpost_id f = Some sid \<and>
      process_row a s f =
        (if is_begin ek \<and> \<not> is_end ek then begin_step (th, sid) t nm (time_fmt f) s
         else if is_end ek \<and> \<not> is_begin ek then end_step (th, sid) t nm s
         else s) \<and>
      (is_begin ek = is_end ek \<longrightarrow> process_row a s f = s)"
    if "accept a f = Some (t, ek, nm, th, sid)"
    using that process_row_accepted [OF that, of s] by (auto simp: accept_Some)
  ultimately show ?thesis
    using accept_None [of a f] sublist_lower [of "''begin''" k] sublist_lower [of "''end''" k]
    unfolding is_begin_def is_end_def by blast
qed

text \<open>
  Three rows: kind \<open>BEGIN\<close> is a begin; subsystem \<open>Engine-Sim\<close> does not equal
  \<open>engine-sim\<close>; kind \<open>Begin/End\<close> changes nothing.
\<close>

theorem filter_and_classification_witness:
  "accept \<lparr>args_subsystem = ''engine-sim'', args_category = ''perf'', args_top = 20\<rparr>
     \<lparr>time_ns = Some 1000, time_fmt = None, event_kind = Some ''BEGIN'', name = Some ''Load'',
      subsystem = Some ''engine-sim'', category = Some ''perf'', thread_id = Some ''t1'',
      signpost_id = Some ''0xA''\<rparr> = Some (1000, ''BEGIN'', ''Load'', ''t1'', ''0xA'') \<and>
   process_row \<lparr>args_subsystem = ''engine-sim'', args_category = ''perf'', args_top = 20\<rparr> init_state
     \<lparr>time_ns = Some 1000, time_fmt = None, event_kind = Some ''BEGIN'', name = Some ''Load'',
      subsystem = Some ''engine-sim'', category = Some ''perf'', thread_id = Some ''t1'',
      signpost_id = Some ''0xA''\<rparr> = begin_step (''t1'', ''0xA'') 1000 ''Load'' None init_state \<and>
   accept \<lparr>args_subsystem = ''engine-sim'', args_category = ''perf'', args_top = 20\<rparr>
     \<lparr>time_ns = Some 1000, time_fmt = None, event_kind = Some ''BEGIN'', name = Some ''Load'',
      subsystem = Some ''Engine-Sim'', category = Some ''perf'', thread_id = Some ''t1'',
      signpost_id = Some ''0xA''\<rparr> = None \<and>
   process_row \<lparr>args_subsystem = ''engine-sim'', args_category = ''perf'', args_top = 20\<rparr> init_state
     \<lparr>time_ns = Some 1000, time_fmt = None, event_kind = Some ''BEGIN'', name = Some ''Load'',
      subsystem = Some ''Engine-Sim'', category = Some ''perf'', thread_id = Some ''t1'',
      signpost_id = Some ''0xA''\<rparr> = init_state \<and>
   accept \<lparr>args_subsystem = ''engine-sim'', args_category = ''perf'', args_top = 20\<rparr>
     \<lparr>time_ns = Some 1000, time_fmt = None, event_kind = Some ''Begin/End'', name = Some ''Load'',
      subsystem = Some ''engine-sim'', category = Some ''perf'', thread_id = Some ''t1'',
      signpost_id = Some ''0xA''\<rparr> = Some (1000, ''Begin/End'', ''Load'', ''t1'', ''0xA'') \<and>
   process_row \<lparr>args_subsystem = ''engine-sim'', args_category = ''perf'', args_top = 20\<rparr> init_state
     \<lparr>time_ns = Some 1000, time_fmt = None, event_kind = Some ''Begin/End'', name = Some ''Load'',
      subsystem = Some ''engine-sim'', category = Some ''perf'', thread_id = Some ''t1'',
      signpost_id = Some ''0xA''\<rparr> = init_state"
proof -
  let ?a = "\<lparr>args_subsystem = ''engine-sim'', args_category = ''perf'', args_top = 20\<rparr>"
  let ?f1 = "\<lparr>time_ns = Some 1000, time_fmt = None, event_kind = Some ''BEGIN'', name = Some ''Load'',
      subsystem = Some ''engine-sim'', category = Some ''perf'', thread_id = Some ''t1'',
      signpost_id = Some ''0xA''\<rparr>"
  let ?f2 = "\<lparr>time_ns = Some 1000, time_fmt = None, event_kind = Some ''BEGIN'', name = Some ''Load'',
      subsystem = Some ''Engine-Sim'', category = Some ''perf'', thread_id = Some ''t1'',
      signpost_id = Some ''0xA''\<rparr>"
  let ?f3 = "\<lparr>time_ns = Some 1000, time_fmt = None, event_kind = Some ''Begin/End'', name = Some ''Load'',
      subsystem = Some ''engine-sim'', category = Some ''perf'', thread_id = Some ''t1'',
      signpost_id = Some ''0xA''\<rparr>"
  have a1: "accept ?a ?f1 = Some (1000, ''BEGIN'', ''Load'', ''t1'', ''0xA'')"
    by (simp add: accept_def nonempty_def)
  have a2: "accept ?a ?f2 = None"
    by (simp add: accept_def)
  have a3: "accept ?a ?f3 = Some (1000, ''Begin/End'', ''Load'', ''t1'', ''0xA'')"
    by (simp add: accept_def nonempty_def)
  have k1: "is_begin ''BEGIN''" "\<not> is_end ''BEGIN''" by code_simp+
  have k3: "is_begin ''Begin/End''" "is_end ''Begin/End''" by code_simp+
  have p1: "process_row ?a init_state ?f1 = begin_step (''t1'', ''0xA'') 1000 ''Load'' None init_state"
    using filter_and_classification
      [of ?a ?f1 init_state 1000 "''BEGIN''" "''Load''" "''t1''" "''0xA''"] a1 k1
    by simp
  have p2: "process_row ?a init_state ?f2 = init_state"
    using filter_and_classification [of ?a ?f2 init_state] a2 by blast
  have p3: "process_row ?a init_state ?f3 = init_state"
    using filter_and_classification
      [of ?a ?f3 init_state 1000 "''Begin/End''" "''Load''" "''t1''" "''0xA''"] a3 k3
    by simp
  show ?thesis using a1 a2 a3 p1 p2 p3 by blast
qed



subsection \<open>The report\<close>









subsection \<open>The pass on a document\<close>

text \<open>
  On the events of a document every row is read after line 113 has emptied its
  children, so no row passes the filter: the counters stay at zero and no row is
  printed, whatever the document holds.
\<close>

lemma parse_child_cleared: "parse_child s no_fields (cleared c) = no_fields"
  by (cases c)
     (simp add: parse_child_def Let_def text_or_empty_def strip_def resolve_fmt_def resolve_id_def
        nonempty_def py_or_def no_fields_def)

lemma parse_row_cleared: "parse_row s (Elem t a x (map cleared cs)) = no_fields"
  unfolding parse_row_def
  by (induction cs) (simp_all add: parse_child_cleared)

lemma accept_no_fields: "accept a no_fields = None"
  by (simp add: accept_def no_fields_def)

lemma step_cleared:
  "step a s (Elem t atts x (map cleared cs)) = register s (Elem t atts x (map cleared cs))"
  by (simp add: step_def Let_def parse_row_cleared process_row_def accept_no_fields)

lemma end_events_cleared:
  "e \<in> set (end_events doc) \<Longrightarrow> \<exists>t atts x cs. e = Elem t atts x (map cleared cs)"
  by (induction doc arbitrary: e rule: end_events.induct) auto

lemma foldl_step_cleared:
  assumes "\<forall>e \<in> set evs. \<exists>t atts x cs. e = Elem t atts x (map cleared cs)"
  shows "open_intervals (foldl (step a) s evs) = open_intervals s \<and>
         durations_by_name (foldl (step a) s evs) = durations_by_name s \<and>
         unmatched_ends (foldl (step a) s evs) = unmatched_ends s \<and>
         matched (foldl (step a) s evs) = matched s"
  using assms
proof (induction evs arbitrary: s)
  case Nil
  show ?case by simp
next
  case (Cons e evs)
  then obtain t atts x cs where e: "e = Elem t atts x (map cleared cs)" by auto
  have "\<forall>e \<in> set evs. \<exists>t atts x cs. e = Elem t atts x (map cleared cs)" using Cons.prems by simp
  from Cons.IH [OF this, of "step a s e"] show ?case
    by (simp add: e step_cleared)
qed

lemma main_loop_document:
  "open_intervals (main_loop a (end_events doc)) = [] \<and>
   durations_by_name (main_loop a (end_events doc)) = [] \<and>
   unmatched_ends (main_loop a (end_events doc)) = 0 \<and>
   matched (main_loop a (end_events doc)) = 0"
  using foldl_step_cleared [of "end_events doc" a init_state] end_events_cleared [of _ doc]
  by (simp add: main_loop_def init_state_def)

lemma main_document:
  "main a doc = Inr \<lparr>matched_intervals = 0, open_intervals_remaining = 0,
     unmatched_end_events = 0, printed_rows = []\<rparr>"
  using main_loop_document [of a doc]
  by (simp add: main_def report_def report_rows_def py_take_def)

end
